theory Spec2Isabelle
  imports Main "HOL-Library.Multiset"
begin

section \<open>Moments and calendar dates\<close>

text \<open>
  The program handles every date through moment.js objects. A moment is modelled by its
  position on the local wall clock, in milliseconds since the local epoch midnight; the
  model fixes one UTC offset, so the wall-clock order is the order of the instants. The
  operations below are the ones that \<^verbatim>\<open>getScheduleIndex\<close>, \<^verbatim>\<open>isSchoolDay\<close>,
  \<^verbatim>\<open>getDateOptions\<close> and \<^verbatim>\<open>getOrdersArr\<close> call.
\<close>

type_synonym moment = int

definition msPerDay :: int where
  "msPerDay = 86400000"

text \<open>
  \<^verbatim>\<open>absFloor\<close> of moment.js, applied to the quotient \<open>x / n\<close>: \<^verbatim>\<open>Math.ceil\<close> for a
  negative number, \<^verbatim>\<open>Math.floor\<close> otherwise, so the quotient is rounded toward zero.
\<close>

definition absFloor :: "int \<Rightarrow> int \<Rightarrow> int" where
  "absFloor x n = (if x < 0 then - ((- x) div n) else x div n)"

text \<open>\<^verbatim>\<open>a.diff(b, "days")\<close>: the whole days between two moments, rounded toward zero.\<close>

definition diff_days :: "moment \<Rightarrow> moment \<Rightarrow> int" where
  "diff_days a b = absFloor (a - b) msPerDay"

text \<open>\<^verbatim>\<open>a.diff(b)\<close>: the difference in milliseconds.\<close>

definition diff_ms :: "moment \<Rightarrow> moment \<Rightarrow> int" where
  "diff_ms a b = a - b"

text \<open>\<^verbatim>\<open>m.add(n, "days")\<close>; the mutation of the receiver becomes the returned moment.\<close>

definition add_days :: "moment \<Rightarrow> int \<Rightarrow> moment" where
  "add_days m n = m + n * msPerDay"

text \<open>\<^verbatim>\<open>m.startOf("day")\<close>: midnight of the same calendar day.\<close>

definition startOf_day :: "moment \<Rightarrow> moment" where
  "startOf_day m = m - m mod msPerDay"

definition isAfter :: "moment \<Rightarrow> moment \<Rightarrow> bool" where
  "isAfter a b = (b < a)"

definition isBefore :: "moment \<Rightarrow> moment \<Rightarrow> bool" where
  "isBefore a b = (a < b)"

definition isSameOrAfter :: "moment \<Rightarrow> moment \<Rightarrow> bool" where
  "isSameOrAfter a b = (b \<le> a)"

text \<open>
  Modelled from the spec: \<^verbatim>\<open>constants/Date.js\<close> (\<^verbatim>\<open>ISO_FORMAT\<close>, \<^verbatim>\<open>READABLE_FORMAT\<close>,
  \<^verbatim>\<open>toISO\<close>, \<^verbatim>\<open>toReadable\<close>) is not among the sources. The spec describes the ISO form as
  the canonical, comparable form of a calendar date and the readable form as its display
  form. Either string is represented by the number of the calendar day it denotes, under
  a constructor of its own so that the two forms stay apart as they do in the program.
\<close>

datatype isoDate = ISO int

datatype readable = Readable int

fun iso_day :: "isoDate \<Rightarrow> int" where
  "iso_day (ISO n) = n"

fun readable_day :: "readable \<Rightarrow> int" where
  "readable_day (Readable n) = n"

text \<open>The calendar day a moment falls on.\<close>

definition day_of :: "moment \<Rightarrow> int" where
  "day_of m = m div msPerDay"

text \<open>\<^verbatim>\<open>m.format(ISO_FORMAT)\<close> and \<^verbatim>\<open>m.format(READABLE_FORMAT)\<close>.\<close>

definition format_ISO :: "moment \<Rightarrow> isoDate" where
  "format_ISO m = ISO (day_of m)"

definition format_READABLE :: "moment \<Rightarrow> readable" where
  "format_READABLE m = Readable (day_of m)"

fun toReadable :: "isoDate \<Rightarrow> readable" where
  "toReadable (ISO n) = Readable n"

fun toISO :: "readable \<Rightarrow> isoDate" where
  "toISO (Readable n) = ISO n"

section \<open>JavaScript numbers and array reads\<close>

text \<open>
  The result of \<^verbatim>\<open>%\<close> on integers is an integer with the sign of the dividend, or
  \<^verbatim>\<open>NaN\<close> when the divisor is zero. Negative zero is identified with zero: as an array
  index both name element 0.
\<close>

datatype jsnum = Num int | NaN

definition js_rem :: "int \<Rightarrow> int \<Rightarrow> jsnum" where
  "js_rem a b = (if b = 0 then NaN else Num (sgn a * (\<bar>a\<bar> mod \<bar>b\<bar>)))"

text \<open>
  \<^verbatim>\<open>xs[i]\<close>: the element when \<open>i\<close> is an index of the array, \<^verbatim>\<open>undefined\<close> (here
  \<open>None\<close>) for a negative number, a number past the end, or \<^verbatim>\<open>NaN\<close>.
\<close>

fun js_index :: "'a list \<Rightarrow> jsnum \<Rightarrow> 'a option" where
  "js_index xs (Num i) = (if 0 \<le> i \<and> i < int (length xs) then Some (xs ! nat i) else None)"
| "js_index xs NaN = None"

text \<open>Truthiness of a value that is a boolean or \<^verbatim>\<open>undefined\<close>.\<close>

fun truthy :: "bool option \<Rightarrow> bool" where
  "truthy (Some b) = b"
| "truthy None = False"

section \<open>The school schedule\<close>

definition getScheduleIndex :: "moment \<Rightarrow> moment \<Rightarrow> int \<Rightarrow> jsnum" where
  "getScheduleIndex date startDate scheduleLength =
     js_rem (diff_days date startDate) scheduleLength"

text \<open>
  \<^verbatim>\<open>constants/Schedule.js\<close> is not among the sources; the schedule is a parameter of the
  model. \<open>startDate\<close> is the moment that the schedule's start date string parses to.
\<close>

record schedule =
  startDate :: moment
  values' :: "bool list"

definition isSchoolDay :: "moment \<Rightarrow> schedule \<Rightarrow> bool option" where
  "isSchoolDay date sched =
     (let scheduleIndex = getScheduleIndex date (startDate sched) (int (length (values' sched)))
      in js_index (values' sched) scheduleIndex)"

section \<open>Orders\<close>

text \<open>
  An order as the README describes it: a unique key, a title and a date (the order
  options of the sandwich play no part here). The date is a moment in the store's
  \<^verbatim>\<open>orders\<close> object and a readable string once an order is displayed or focused, so the
  record leaves its type open.
\<close>

record 'd order =
  key :: string
  title :: string
  date :: 'd

text \<open>
  The \<^verbatim>\<open>orders\<close> object maps order ids to orders. It is an association list in the
  object's property order; \<^verbatim>\<open>Object.keys\<close>, \<^verbatim>\<open>Object.values\<close> and the read
  \<^verbatim>\<open>orders[id]\<close> are the projections and the lookup of that list.
\<close>

type_synonym orders = "(string \<times> moment order) list"

definition Object_keys :: "('k \<times> 'v) list \<Rightarrow> 'k list" where
  "Object_keys obj = map fst obj"

definition Object_values :: "('k \<times> 'v) list \<Rightarrow> 'v list" where
  "Object_values obj = map snd obj"

section \<open>Date options\<close>

text \<open>
  The \<^verbatim>\<open>for\<close> loop of \<^verbatim>\<open>getDateOptions\<close>: \<open>i\<close> counts the iterations, \<open>date'\<close> is the
  moment that the loop advances by one day per iteration, \<open>dateOptions\<close> the array it
  pushes to. A missing focused order (\<^verbatim>\<open>undefined\<close> or \<^verbatim>\<open>null\<close>) is \<open>None\<close> and falsy.
\<close>

function dateLoop ::
  "nat \<Rightarrow> moment \<Rightarrow> isoDate list \<Rightarrow> readable order option \<Rightarrow> schedule \<Rightarrow> readable list
     \<Rightarrow> readable list" where
  "dateLoop i date' orderDates focusedOrder sched dateOptions =
     (if i < 14 then
        (let isoDate = format_ISO date';
             dateOptions' =
               (if truthy (isSchoolDay date' sched) \<and>
                   (isoDate \<notin> set orderDates \<or>
                    (case focusedOrder of None \<Rightarrow> False
                     | Some focused \<Rightarrow> toISO (date focused) = isoDate))
                then dateOptions @ [toReadable isoDate]
                else dateOptions)
         in dateLoop (i + 1) (add_days date' 1) orderDates focusedOrder sched dateOptions')
      else dateOptions)"
  by pat_completeness auto
termination
  by (relation "measure (\<lambda>(i, _). 14 - i)") auto

declare dateLoop.simps [simp del]

text \<open>
  The condition under which an iteration of the loop pushes its date, named for the
  lemmas about the loop.
\<close>

definition eligible :: "isoDate list \<Rightarrow> readable order option \<Rightarrow> schedule \<Rightarrow> moment \<Rightarrow> bool" where
  "eligible orderDates focusedOrder sched date' =
     (truthy (isSchoolDay date' sched) \<and>
      (format_ISO date' \<notin> set orderDates \<or>
       (case focusedOrder of None \<Rightarrow> False
        | Some focused \<Rightarrow> toISO (date focused) = format_ISO date')))"

text \<open>
  \<^verbatim>\<open>getDateOptions(orders, focusedOrder, cutoffTime)\<close>. The current moment that the code
  reads with \<^verbatim>\<open>moment()\<close> and the imported \<^verbatim>\<open>Schedule\<close> are the parameters \<open>now\<close> and
  \<open>sched\<close>. Every id passed to the lookup comes from \<^verbatim>\<open>Object.keys\<close>, so the lookup finds
  an order.
\<close>

definition getDateOptions ::
  "orders \<Rightarrow> readable order option \<Rightarrow> moment \<Rightarrow> moment \<Rightarrow> schedule \<Rightarrow> readable list" where
  "getDateOptions orders focusedOrder cutoffTime now sched =
     (let orderDates = map (\<lambda>id. format_ISO (date (the (map_of orders id)))) (Object_keys orders);
          date0 = now;
          date1 = (if isAfter date0 cutoffTime then add_days date0 1 else date0)
      in dateLoop 0 date1 orderDates focusedOrder sched [])"

section \<open>The orders of the home screen\<close>

text \<open>
  \<^verbatim>\<open>Array.prototype.sort\<close> with a comparator: the sort is stable and puts \<open>a\<close> before \<open>b\<close>
  when the comparator is negative, which for a consistent comparator fixes the result;
  it is modelled by insertion from the right.
\<close>

fun insert_by :: "('a \<Rightarrow> 'a \<Rightarrow> int) \<Rightarrow> 'a \<Rightarrow> 'a list \<Rightarrow> 'a list" where
  "insert_by cmp x [] = [x]"
| "insert_by cmp x (y # ys) = (if cmp x y \<le> 0 then x # y # ys else y # insert_by cmp x ys)"

definition js_sort :: "('a \<Rightarrow> 'a \<Rightarrow> int) \<Rightarrow> 'a list \<Rightarrow> 'a list" where
  "js_sort cmp xs = foldr (insert_by cmp) xs []"

text \<open>The object spread of the last \<^verbatim>\<open>map\<close>: the order with its date in readable form.\<close>

definition readableOrder :: "moment order \<Rightarrow> readable order" where
  "readableOrder ord = \<lparr>key = key ord, title = title ord, date = format_READABLE (date ord)\<rparr>"

text \<open>
  \<^verbatim>\<open>getOrdersArr(orders, cutoffTime)\<close>. The clock that the filter reads with \<^verbatim>\<open>moment()\<close>
  is the parameter \<open>clock\<close>; it does not advance during the call. \<open>sortedFutureOrders\<close>
  is the array after \<^verbatim>\<open>.filter(\<dots>).sort(\<dots>)\<close>, to which the final \<^verbatim>\<open>.map(\<dots>)\<close> is applied.
\<close>

definition sortedFutureOrders :: "orders \<Rightarrow> moment \<Rightarrow> moment \<Rightarrow> moment order list" where
  "sortedFutureOrders orders cutoffTime clock =
     js_sort (\<lambda>orderA orderB. diff_ms (date orderA) (date orderB))
       (filter (\<lambda>ord.
                  (let now = clock;
                       now' = (if isBefore now cutoffTime then startOf_day now else now)
                   in isSameOrAfter (date ord) now'))
          (Object_values orders))"

definition getOrdersArr :: "orders \<Rightarrow> moment \<Rightarrow> moment \<Rightarrow> readable order list" where
  "getOrdersArr orders cutoffTime clock =
     map readableOrder (sortedFutureOrders orders cutoffTime clock)"

section \<open>Properties of the schedule index\<close>

lemma msPerDay_pos: "0 < msPerDay"
  by (simp add: msPerDay_def)

lemma diff_days_nonneg: "s \<le> d \<Longrightarrow> diff_days d s = (d - s) div msPerDay"
  by (simp add: diff_days_def absFloor_def)

lemma diff_days_ge0: "s \<le> d \<Longrightarrow> 0 \<le> diff_days d s"
  using msPerDay_pos by (simp add: diff_days_nonneg pos_imp_zdiv_nonneg_iff)

lemma js_rem_nonneg: "0 \<le> a \<Longrightarrow> 0 < b \<Longrightarrow> js_rem a b = Num (a mod b)"
  by (cases "a = 0") (simp_all add: js_rem_def)

text \<open>
  C9: for every cycle length \<open>L > 0\<close> and every anchor, the schedule index of the anchor
  itself is 0.
\<close>

theorem getScheduleIndex_anchor:
  "0 < L \<Longrightarrow> getScheduleIndex s s L = Num 0"
  by (simp add: getScheduleIndex_def diff_days_def absFloor_def js_rem_def)

theorem getScheduleIndex_anchor_witness:
  "(0::int) < 7 \<and> getScheduleIndex 1609718400000 1609718400000 7 = Num 0"
  using getScheduleIndex_anchor [of 7 1609718400000] by simp

lemma js_rem_nonpos: "0 \<le> q \<Longrightarrow> 0 < b \<Longrightarrow> js_rem (- q) b = Num (- (q mod b))"
  by (cases "q = 0") (simp_all add: js_rem_def)

lemma diff_days_neg: "d \<le> s \<Longrightarrow> diff_days d s = - ((s - d) div msPerDay)"
  by (cases "d = s") (simp_all add: diff_days_def absFloor_def)

lemma diff_days_add_days:
  assumes "s \<le> d" and "0 \<le> n"
  shows "diff_days (add_days d n) s = diff_days d s + n"
proof -
  have "0 \<le> n * msPerDay" using assms(2) msPerDay_pos by simp
  then have "s \<le> add_days d n" using assms(1) by (simp add: add_days_def)
  then have "diff_days (add_days d n) s = (d - s + n * msPerDay) div msPerDay"
    by (simp add: diff_days_nonneg add_days_def algebra_simps)
  also have "\<dots> = (d - s) div msPerDay + n" using msPerDay_pos by simp
  finally show ?thesis using assms(1) by (simp add: diff_days_nonneg)
qed

lemma diff_days_within_day:
  assumes "0 \<le> k" "0 \<le> t" "t < msPerDay"
  shows "diff_days (add_days s k + t) s = k"
proof -
  have "0 \<le> k * msPerDay" using assms(1) msPerDay_pos by simp
  then have "\<not> k * msPerDay + t < 0" using assms(2) by linarith
  moreover have "(k * msPerDay + t) div msPerDay = k"
    using assms msPerDay_pos by simp
  ultimately show ?thesis by (simp add: diff_days_def absFloor_def add_days_def)
qed

text \<open>
  What the code computes on either side of the anchor, for a cycle length \<open>L > 0\<close>. At or
  after the anchor the whole days since the anchor are rounded down and \<^verbatim>\<open>%\<close> is the
  mathematical modulo, a number in \<open>[0, L)\<close>. Before the anchor \<^verbatim>\<open>diff\<close> rounds toward
  zero and \<^verbatim>\<open>%\<close> keeps the sign of the dividend, so the result is the negated modulo of
  the whole days up to the anchor, a number in \<open>(-L, 0]\<close>, and no longer the position of
  the date in the repeating schedule.
\<close>

lemma getScheduleIndex_either_side:
  assumes "0 < L"
  shows "(s \<le> d \<longrightarrow> getScheduleIndex d s L = Num ((d - s) div msPerDay mod L)
           \<and> 0 \<le> (d - s) div msPerDay mod L \<and> (d - s) div msPerDay mod L < L)
       \<and> (d < s \<longrightarrow> getScheduleIndex d s L = Num (- ((s - d) div msPerDay mod L))
           \<and> - L < - ((s - d) div msPerDay mod L) \<and> - ((s - d) div msPerDay mod L) \<le> 0)"
proof (intro conjI impI)
  assume "s \<le> d"
  then show "getScheduleIndex d s L = Num ((d - s) div msPerDay mod L)"
    using assms diff_days_ge0 [of s d]
    by (simp add: getScheduleIndex_def js_rem_nonneg diff_days_nonneg)
next
  assume "d < s"
  then have "0 \<le> (s - d) div msPerDay"
    using msPerDay_pos by (simp add: pos_imp_zdiv_nonneg_iff)
  then show "getScheduleIndex d s L = Num (- ((s - d) div msPerDay mod L))"
    using assms \<open>d < s\<close> by (simp add: getScheduleIndex_def diff_days_neg js_rem_nonpos)
qed (use assms in simp_all)

text \<open>
  C1: the claim asks for the mathematical modulo of the whole-day difference, a number in
  \<open>[0, L)\<close>, also when the date precedes the anchor, and the function's comment promises
  the index of the date on a schedule that repeats. The code breaks this before the
  anchor. With the anchor on Monday 4 January 2021 and a cycle of 7: at midnight of the
  Sunday before, the code returns \<open>-1\<close> where the modulo is 6; at noon of that Sunday it
  returns 0, Monday's position, where the modulo is again 6.
\<close>

theorem getScheduleIndex_before_anchor:
  "getScheduleIndex 1609632000000 1609718400000 7 = Num (- 1)
   \<and> (1609632000000 - 1609718400000) div msPerDay mod 7 = (6::int)
   \<and> getScheduleIndex 1609675200000 1609718400000 7 = Num 0
   \<and> (1609675200000 - 1609718400000) div msPerDay mod 7 = (6::int)"
  by (simp add: getScheduleIndex_def diff_days_def absFloor_def js_rem_def msPerDay_def)

text \<open>
  Where the code is periodic: for a cycle length \<open>L > 0\<close>, a date and the date \<open>L\<close> days
  later have the same schedule index as long as both lie on the same side of the anchor.
\<close>

lemma getScheduleIndex_periodic_same_side:
  assumes "0 < L" and "s \<le> d \<or> add_days d L \<le> s"
  shows "getScheduleIndex (add_days d L) s L = getScheduleIndex d s L"
  using assms(2)
proof
  assume sd: "s \<le> d"
  have "0 \<le> diff_days d s" using sd by (rule diff_days_ge0)
  moreover have "diff_days (add_days d L) s = diff_days d s + L"
    using sd assms(1) by (simp add: diff_days_add_days)
  ultimately show ?thesis using assms(1)
    by (simp add: getScheduleIndex_def js_rem_nonneg)
next
  assume ds: "add_days d L \<le> s"
  have LD: "0 < L * msPerDay" using assms(1) msPerDay_pos by simp
  then have d_le: "d \<le> s" using ds by (simp add: add_days_def)
  define q where "q = (s - d) div msPerDay"
  have "s - add_days d L = (s - d) + (- L) * msPerDay" by (simp add: add_days_def)
  then have "(s - add_days d L) div msPerDay = q - L"
    using msPerDay_pos unfolding q_def
    by (metis div_mult_self1 less_irrefl add.commute uminus_add_conv_diff)
  moreover have "0 \<le> (s - add_days d L) div msPerDay"
    using ds msPerDay_pos by (simp add: pos_imp_zdiv_nonneg_iff)
  ultimately have q: "0 \<le> q - L" "diff_days (add_days d L) s = - (q - L)"
    using ds by (simp_all add: diff_days_neg)
  have "diff_days d s = - q" using d_le by (simp add: diff_days_neg q_def)
  moreover have "(q - L) mod L = q mod L" by simp
  ultimately show ?thesis using q assms(1)
    by (simp add: getScheduleIndex_def js_rem_nonpos del: minus_diff_eq)
qed

text \<open>
  C7: the claim asks for the same index at a date and at that date plus \<open>L\<close> days, for every
  date. The code breaks this across the anchor: with the anchor on Monday 4 January 2021
  and a cycle of 7, the Sunday before the anchor has index \<open>-1\<close> and the Sunday after it,
  seven days later, has index 6.
\<close>

theorem getScheduleIndex_across_anchor:
  "getScheduleIndex 1609632000000 1609718400000 7 = Num (- 1)
   \<and> getScheduleIndex (add_days 1609632000000 7) 1609718400000 7 = Num 6"
  by (simp add: getScheduleIndex_def diff_days_def absFloor_def js_rem_def msPerDay_def
      add_days_def)

section \<open>Properties of the school day predicate\<close>

text \<open>
  Where the read is in bounds: for a schedule with a non-empty sequence and a date at or
  after the schedule's anchor, the schedule index is within the bounds of the sequence
  and \<^verbatim>\<open>isSchoolDay\<close> returns the boolean stored there.
\<close>

lemma isSchoolDay_at_or_after_anchor:
  assumes "values' sched \<noteq> []" and "startDate sched \<le> d"
  shows "\<exists>i. getScheduleIndex d (startDate sched) (int (length (values' sched))) = Num i
           \<and> 0 \<le> i \<and> i < int (length (values' sched))
           \<and> isSchoolDay d sched = Some (values' sched ! nat i)"
proof -
  let ?L = "int (length (values' sched))"
  let ?i = "diff_days d (startDate sched) mod ?L"
  have L: "0 < ?L" using assms(1) by simp
  have "getScheduleIndex d (startDate sched) ?L = Num ?i"
    using L diff_days_ge0 [OF assms(2)] by (simp add: getScheduleIndex_def js_rem_nonneg)
  moreover have "0 \<le> ?i" "?i < ?L" using L by simp_all
  ultimately show ?thesis by (simp add: isSchoolDay_def)
qed

text \<open>
  C2: the claim asks for the boolean stored at the date's position in the schedule, never
  \<^verbatim>\<open>undefined\<close>, for every date and every valid schedule, and the function's comment
  declares a boolean result. The code breaks this before the anchor. With the Monday to
  Friday schedule anchored on Monday 4 January 2021: at midnight of the Sunday before,
  the index is \<open>-1\<close> and the read yields \<^verbatim>\<open>undefined\<close>; at noon of that Sunday the index
  is 0 and the code answers with Monday's \<open>true\<close>, where the schedule's entry for a Sunday
  (position 6) is \<open>false\<close>.
\<close>

theorem isSchoolDay_before_anchor:
  "isSchoolDay 1609632000000
     \<lparr>startDate = 1609718400000, values' = [True, True, True, True, True, False, False]\<rparr> = None
   \<and> getScheduleIndex 1609632000000 1609718400000 7 = Num (- 1)
   \<and> isSchoolDay 1609675200000
     \<lparr>startDate = 1609718400000, values' = [True, True, True, True, True, False, False]\<rparr>
       = Some True
   \<and> [True, True, True, True, True, False, False]
        ! nat ((1609675200000 - 1609718400000) div msPerDay mod 7) = False"
  by (simp add: isSchoolDay_def getScheduleIndex_def diff_days_def absFloor_def js_rem_def
      msPerDay_def)

text \<open>
  C8: for the sequence \<open>[true, true, true, true, true, false, false]\<close> anchored at a Monday
  (its midnight), \<^verbatim>\<open>isSchoolDay\<close> is true at every time of that Monday and of the four days
  after it (\<open>k = 0, \<dots>, 4\<close>) and false at every time of the following Saturday and Sunday
  (\<open>k = 5, 6\<close>).
\<close>

theorem isSchoolDay_week:
  assumes "0 \<le> k" "k < 7" "0 \<le> t" "t < msPerDay"
  shows "isSchoolDay (add_days monday k + t)
           \<lparr>startDate = monday, values' = [True, True, True, True, True, False, False]\<rparr>
         = Some (k < 5)"
proof -
  have "k = 0 \<or> k = 1 \<or> k = 2 \<or> k = 3 \<or> k = 4 \<or> k = 5 \<or> k = 6" using assms(1,2) by arith
  then show ?thesis
    using assms(1,3,4)
    by (auto simp add: isSchoolDay_def getScheduleIndex_def diff_days_within_day js_rem_def
        nth_Cons' simp del: upt_Suc)
qed

theorem isSchoolDay_week_witness:
  "(0::int) \<le> 5 \<and> (5::int) < 7 \<and> (0::int) \<le> 36000000 \<and> 36000000 < msPerDay
   \<and> isSchoolDay (add_days 1609718400000 5 + 36000000)
           \<lparr>startDate = 1609718400000, values' = [True, True, True, True, True, False, False]\<rparr>
         = Some False"
  using isSchoolDay_week [of 5 36000000 1609718400000] by (simp add: msPerDay_def)

section \<open>Properties of the date options\<close>

lemma add_days_add_days: "add_days (add_days d a) b = add_days d (a + b)"
  by (simp add: add_days_def algebra_simps)

lemma add_days_0: "add_days d 0 = d"
  by (simp add: add_days_def)

lemma day_of_add_days: "day_of (add_days d k) = day_of d + k"
  using msPerDay_pos by (simp add: day_of_def add_days_def)

lemma format_ISO_add_days: "format_ISO (add_days d k) = ISO (day_of d + k)"
  by (simp add: format_ISO_def day_of_add_days)

lemma dateLoop_step:
  "i < 14 \<Longrightarrow> dateLoop i d od fo sch acc =
     dateLoop (i + 1) (add_days d 1) od fo sch
       (if eligible od fo sch d then acc @ [toReadable (format_ISO d)] else acc)"
  by (subst dateLoop.simps) (simp add: eligible_def Let_def)

lemma dateLoop_done: "\<not> i < 14 \<Longrightarrow> dateLoop i d od fo sch acc = acc"
  by (subst dateLoop.simps) simp

text \<open>
  The loop, run from iteration \<open>i\<close> with \<open>n\<close> iterations left, appends the eligible ones
  of the next \<open>n\<close> days in order.
\<close>

lemma dateLoop_eq:
  "n + i = 14 \<Longrightarrow> dateLoop i d od fo sch acc =
     acc @ map (\<lambda>k. toReadable (format_ISO (add_days d (int k))))
             (filter (\<lambda>k. eligible od fo sch (add_days d (int k))) [0..<n])"
proof (induction n arbitrary: i d acc)
  case 0
  then show ?case by (simp add: dateLoop_done)
next
  case (Suc n)
  have i: "i < 14" and n: "n + (i + 1) = 14" using Suc.prems by simp_all
  have up: "[0..<Suc n] = 0 # map Suc [0..<n]"
    by (simp add: upt_conv_Cons map_Suc_upt del: upt_Suc)
  show ?case
    unfolding dateLoop_step [OF i] Suc.IH [OF n] up
    by (simp add: add_days_add_days add_days_0 filter_map o_def add.commute)
qed

lemma getDateOptions_eq:
  "getDateOptions orders fo cutoff now sch =
     map (\<lambda>k. Readable (day_of (if isAfter now cutoff then add_days now 1 else now) + int k))
       (filter (\<lambda>k. eligible
                  (map (\<lambda>id. format_ISO (date (the (map_of orders id)))) (Object_keys orders))
                  fo sch (add_days (if isAfter now cutoff then add_days now 1 else now) (int k)))
          [0..<14])"
  unfolding getDateOptions_def Let_def
  by (subst dateLoop_eq [of 14]) (simp_all add: format_ISO_add_days del: upt_Suc)

lemma set_orderDates:
  "set (map (\<lambda>id. format_ISO (date (the (map_of orders id)))) (Object_keys orders))
     = (\<lambda>ord. format_ISO (date ord)) ` ran (map_of orders)"
proof (intro set_eqI iffI)
  fix x
  assume "x \<in> set (map (\<lambda>id. format_ISO (date (the (map_of orders id)))) (Object_keys orders))"
  then obtain id where id: "id \<in> fst ` set orders"
    and x: "x = format_ISO (date (the (map_of orders id)))"
    by (auto simp: Object_keys_def)
  from id obtain ord where "map_of orders id = Some ord"
    by (metis domD dom_map_of_conv_image_fst)
  then show "x \<in> (\<lambda>ord. format_ISO (date ord)) ` ran (map_of orders)"
    using x by (auto simp: ran_def)
next
  fix x
  assume "x \<in> (\<lambda>ord. format_ISO (date ord)) ` ran (map_of orders)"
  then obtain ord id where m: "map_of orders id = Some ord" and x: "x = format_ISO (date ord)"
    by (auto simp: ran_def)
  from m have "id \<in> fst ` set orders" by (metis domI dom_map_of_conv_image_fst)
  then show "x \<in> set (map (\<lambda>id. format_ISO (date (the (map_of orders id)))) (Object_keys orders))"
    using m x by (force simp: Object_keys_def)
qed

lemma eligible_iff:
  "eligible (map (\<lambda>id. format_ISO (date (the (map_of orders id)))) (Object_keys orders)) fo sch d
   \<longleftrightarrow> truthy (isSchoolDay d sch) \<and>
        ((\<forall>ord \<in> ran (map_of orders). format_ISO (date ord) \<noteq> format_ISO d) \<or>
         (\<exists>focused. fo = Some focused \<and> toISO (date focused) = format_ISO d))"
proof -
  have "format_ISO d \<notin> (\<lambda>ord. format_ISO (date ord)) ` ran (map_of orders)
        \<longleftrightarrow> (\<forall>ord \<in> ran (map_of orders). format_ISO (date ord) \<noteq> format_ISO d)"
    by (auto simp: image_iff)
  moreover have "(case fo of None \<Rightarrow> False | Some focused \<Rightarrow> toISO (date focused) = format_ISO d)
        \<longleftrightarrow> (\<exists>focused. fo = Some focused \<and> toISO (date focused) = format_ISO d)"
    by (cases fo) simp_all
  ultimately show ?thesis unfolding eligible_def set_orderDates by simp
qed

lemma mem_getDateOptions:
  "r \<in> set (getDateOptions orders fo cutoff now sch) \<longleftrightarrow>
     (\<exists>k<14. r = Readable (day_of (if isAfter now cutoff then add_days now 1 else now) + int k)
        \<and> eligible (map (\<lambda>id. format_ISO (date (the (map_of orders id)))) (Object_keys orders))
             fo sch (add_days (if isAfter now cutoff then add_days now 1 else now) (int k)))"
  unfolding getDateOptions_eq by (auto simp del: upt_Suc)

text \<open>
  A worked example: Wednesday 6 January 2021, 10:00, with the cutoff at 14:00, a Monday
  to Friday schedule anchored at Monday 4 January, and one order on Friday 8 January.
  Day 18633 is that Wednesday.
\<close>

lemma upt_14: "[0..<14] = [0, 1, 2, 3, 4, 5, 6, 7, 8, 9, 10, 11, 12, 13::nat]"
  by code_simp

lemmas moment_defs = isAfter_def add_days_def msPerDay_def format_ISO_def day_of_def
  isSchoolDay_def getScheduleIndex_def diff_days_def absFloor_def js_rem_def

lemma getDateOptions_example:
  "getDateOptions
     [(''2021-01-08'', \<lparr>key = ''2021-01-08'', title = ''BLT'', date = 1610064000000\<rparr>)]
     None 1609941600000 1609927200000
     \<lparr>startDate = 1609718400000, values' = [True, True, True, True, True, False, False]\<rparr>
   = [Readable 18633, Readable 18634, Readable 18638, Readable 18639, Readable 18640,
      Readable 18641, Readable 18642, Readable 18645, Readable 18646]"
  unfolding getDateOptions_eq upt_14
  by (simp add: eligible_def Object_keys_def moment_defs)

text \<open>
  The dates before the anchor reach \<^verbatim>\<open>isSchoolDay\<close> through \<^verbatim>\<open>getDateOptions\<close> whenever the
  schedule in force is anchored after the current moment. On Monday 28 December 2020 at
  noon, with the cutoff at 14:00 and the Monday to Friday schedule anchored on Monday
  4 January 2021, the scan offers Sunday 3 January (day 18630).
\<close>

lemma getDateOptions_before_anchor_example:
  "Readable 18630 \<in> set (getDateOptions [] None 1609164000000 1609156800000
       \<lparr>startDate = 1609718400000, values' = [True, True, True, True, True, False, False]\<rparr>)"
  unfolding getDateOptions_eq upt_14
  by (simp add: eligible_def Object_keys_def moment_defs)

text \<open>
  C3: a candidate date of the scan (the start date plus \<open>k < 14\<close> days) is in the result
  if and only if it is a school day and either no order of the mapping is on that date
  or the focused order's own date is that date; so a returned date that an existing
  order occupies is the focused order's date.
\<close>

theorem getDateOptions_membership:
  assumes "k < 14"
  shows "(let start = (if isAfter now cutoffTime then add_days now 1 else now);
              candidate = add_days start (int k)
          in toReadable (format_ISO candidate)
               \<in> set (getDateOptions orders focusedOrder cutoffTime now sched)
             \<longleftrightarrow> truthy (isSchoolDay candidate sched) \<and>
                ((\<forall>ord \<in> ran (map_of orders). format_ISO (date ord) \<noteq> format_ISO candidate) \<or>
                 (\<exists>focused. focusedOrder = Some focused
                      \<and> toISO (date focused) = format_ISO candidate)))
         \<and> (\<forall>r \<in> set (getDateOptions orders focusedOrder cutoffTime now sched).
               (\<exists>ord \<in> ran (map_of orders). format_ISO (date ord) = toISO r) \<longrightarrow>
               (\<exists>focused. focusedOrder = Some focused \<and> toISO (date focused) = toISO r))"
proof -
  let ?start = "if isAfter now cutoffTime then add_days now 1 else now"
  let ?od = "map (\<lambda>id. format_ISO (date (the (map_of orders id)))) (Object_keys orders)"
  let ?R = "getDateOptions orders focusedOrder cutoffTime now sched"
  have "Readable (day_of ?start + int k) \<in> set ?R
        \<longleftrightarrow> eligible ?od focusedOrder sched (add_days ?start (int k))"
    unfolding mem_getDateOptions using assms by auto
  then have A: "toReadable (format_ISO (add_days ?start (int k))) \<in> set ?R
        \<longleftrightarrow> eligible ?od focusedOrder sched (add_days ?start (int k))"
    by (simp only: format_ISO_add_days toReadable.simps)
  have B: "\<forall>r \<in> set ?R.
               (\<exists>ord \<in> ran (map_of orders). format_ISO (date ord) = toISO r) \<longrightarrow>
               (\<exists>focused. focusedOrder = Some focused \<and> toISO (date focused) = toISO r)"
  proof (intro ballI impI)
    fix r assume "r \<in> set ?R"
      and occ: "\<exists>ord \<in> ran (map_of orders). format_ISO (date ord) = toISO r"
    then obtain j where "toISO r = format_ISO (add_days ?start (int j))"
      and "eligible ?od focusedOrder sched (add_days ?start (int j))"
      unfolding mem_getDateOptions by (auto simp only: format_ISO_add_days toISO.simps)
    then show "\<exists>focused. focusedOrder = Some focused \<and> toISO (date focused) = toISO r"
      using occ unfolding eligible_iff by auto
  qed
  show ?thesis
    unfolding Let_def using A B unfolding eligible_iff by blast
qed

theorem getDateOptions_membership_witness:
  "(2::nat) < 14
   \<and> Readable 18635 \<notin> set (getDateOptions
         [(''2021-01-08'', \<lparr>key = ''2021-01-08'', title = ''BLT'', date = 1610064000000\<rparr>)]
         None 1609941600000 1609927200000
         \<lparr>startDate = 1609718400000, values' = [True, True, True, True, True, False, False]\<rparr>)
   \<and> Readable 18635 \<in> set (getDateOptions
         [(''2021-01-08'', \<lparr>key = ''2021-01-08'', title = ''BLT'', date = 1610064000000\<rparr>)]
         (Some \<lparr>key = ''2021-01-08'', title = ''BLT'', date = Readable 18635\<rparr>)
         1609941600000 1609927200000
         \<lparr>startDate = 1609718400000, values' = [True, True, True, True, True, False, False]\<rparr>)"
proof -
  let ?orders =
    "[(''2021-01-08'', \<lparr>key = ''2021-01-08'', title = ''BLT'', date = 1610064000000::int\<rparr>)]"
  let ?sched =
    "\<lparr>startDate = 1609718400000, values' = [True, True, True, True, True, False, False]\<rparr>"
  have k: "(2::nat) < 14" by simp
  have friday: "format_ISO (add_days 1609927200000 (int 2)) = ISO 18635"
    by (simp add: moment_defs)
  have start:
    "(if isAfter 1609927200000 1609941600000 then add_days 1609927200000 1 else 1609927200000)
       = 1609927200000"
    by (simp add: isAfter_def)
  have school: "truthy (isSchoolDay (add_days 1609927200000 (int 2)) ?sched)"
    by (simp add: moment_defs)
  have occupied: "\<not> (\<forall>ord \<in> ran (map_of ?orders). format_ISO (date ord) \<noteq> ISO 18635)"
    by (simp add: moment_defs)
  note A = getDateOptions_membership [OF k, of 1609927200000 1609941600000 ?orders None ?sched,
      THEN conjunct1, unfolded Let_def start friday]
  note B = getDateOptions_membership [OF k, of 1609927200000 1609941600000 ?orders
      "Some \<lparr>key = ''2021-01-08'', title = ''BLT'', date = Readable 18635\<rparr>" ?sched,
      THEN conjunct1, unfolded Let_def start friday]
  show ?thesis using A B school occupied by simp
qed

text \<open>
  C4: when the current moment is at or before the cutoff (equality included), the scan
  starts at today: today is returned exactly when it is eligible, and nothing earlier is
  returned. When the current moment is strictly after the cutoff, the scan starts at
  tomorrow: today is not returned, tomorrow is returned exactly when it is eligible, and
  nothing earlier is returned.
\<close>

theorem getDateOptions_start:
  "(now \<le> cutoffTime \<longrightarrow>
      (toReadable (format_ISO now) \<in> set (getDateOptions orders focusedOrder cutoffTime now sched)
         \<longleftrightarrow> truthy (isSchoolDay now sched) \<and>
              ((\<forall>ord \<in> ran (map_of orders). format_ISO (date ord) \<noteq> format_ISO now) \<or>
               (\<exists>focused. focusedOrder = Some focused \<and> toISO (date focused) = format_ISO now)))
      \<and> (\<forall>r \<in> set (getDateOptions orders focusedOrder cutoffTime now sched).
            day_of now \<le> readable_day r))
   \<and> (cutoffTime < now \<longrightarrow>
      toReadable (format_ISO now) \<notin> set (getDateOptions orders focusedOrder cutoffTime now sched)
      \<and> (toReadable (format_ISO (add_days now 1))
            \<in> set (getDateOptions orders focusedOrder cutoffTime now sched)
         \<longleftrightarrow> truthy (isSchoolDay (add_days now 1) sched) \<and>
              ((\<forall>ord \<in> ran (map_of orders).
                   format_ISO (date ord) \<noteq> format_ISO (add_days now 1)) \<or>
               (\<exists>focused. focusedOrder = Some focused
                    \<and> toISO (date focused) = format_ISO (add_days now 1))))
      \<and> (\<forall>r \<in> set (getDateOptions orders focusedOrder cutoffTime now sched).
            day_of now + 1 \<le> readable_day r))"
proof -
  let ?R = "getDateOptions orders focusedOrder cutoffTime now sched"
  let ?od = "map (\<lambda>id. format_ISO (date (the (map_of orders id)))) (Object_keys orders)"
  have first: "Readable (day_of s) \<in> set ?R \<longleftrightarrow> eligible ?od focusedOrder sched s"
    if "s = (if isAfter now cutoffTime then add_days now 1 else now)" for s
  proof -
    have "Readable (day_of s) \<in> set ?R
        \<longleftrightarrow> (\<exists>k<14. int k = 0 \<and> eligible ?od focusedOrder sched (add_days s (int k)))"
      unfolding mem_getDateOptions that [symmetric] by auto
    also have "\<dots> \<longleftrightarrow> eligible ?od focusedOrder sched s"
      by (auto simp: add_days_0 intro: exI [of _ 0])
    finally show ?thesis .
  qed
  have lower: "day_of (if isAfter now cutoffTime then add_days now 1 else now) \<le> readable_day r"
    if "r \<in> set ?R" for r
    using that unfolding mem_getDateOptions by auto
  show ?thesis
  proof (intro conjI impI)
    assume le: "now \<le> cutoffTime"
    then have s: "now = (if isAfter now cutoffTime then add_days now 1 else now)"
      by (simp add: isAfter_def)
    show "toReadable (format_ISO now) \<in> set ?R
         \<longleftrightarrow> truthy (isSchoolDay now sched) \<and>
              ((\<forall>ord \<in> ran (map_of orders). format_ISO (date ord) \<noteq> format_ISO now) \<or>
               (\<exists>focused. focusedOrder = Some focused \<and> toISO (date focused) = format_ISO now))"
      using first [OF s] unfolding eligible_iff by (simp add: format_ISO_def)
    show "\<forall>r \<in> set ?R. day_of now \<le> readable_day r"
      using lower le by (simp add: isAfter_def)
  next
    assume lt: "cutoffTime < now"
    then have s: "add_days now 1 = (if isAfter now cutoffTime then add_days now 1 else now)"
      by (simp add: isAfter_def)
    show low: "\<forall>r \<in> set ?R. day_of now + 1 \<le> readable_day r"
      using lower lt by (simp add: isAfter_def day_of_add_days)
    show "toReadable (format_ISO now) \<notin> set ?R"
      using low by (auto simp: format_ISO_def)
    show "toReadable (format_ISO (add_days now 1)) \<in> set ?R
         \<longleftrightarrow> truthy (isSchoolDay (add_days now 1) sched) \<and>
              ((\<forall>ord \<in> ran (map_of orders).
                   format_ISO (date ord) \<noteq> format_ISO (add_days now 1)) \<or>
               (\<exists>focused. focusedOrder = Some focused
                    \<and> toISO (date focused) = format_ISO (add_days now 1)))"
      using first [OF s] unfolding eligible_iff by (simp add: format_ISO_def)
  qed
qed

theorem getDateOptions_start_witness:
  "(1609941600000::int) \<le> 1609941600000
   \<and> Readable 18633 \<in> set (getDateOptions [] None 1609941600000 1609941600000
         \<lparr>startDate = 1609718400000, values' = [True, True, True, True, True, False, False]\<rparr>)
   \<and> (1609941600000::int) < 1609948800000
   \<and> Readable 18633 \<notin> set (getDateOptions [] None 1609941600000 1609948800000
         \<lparr>startDate = 1609718400000, values' = [True, True, True, True, True, False, False]\<rparr>)
   \<and> Readable 18634 \<in> set (getDateOptions [] None 1609941600000 1609948800000
         \<lparr>startDate = 1609718400000, values' = [True, True, True, True, True, False, False]\<rparr>)"
  using getDateOptions_start [of 1609941600000 1609941600000 "[]" None
      "\<lparr>startDate = 1609718400000, values' = [True, True, True, True, True, False, False]\<rparr>"]
    getDateOptions_start [of 1609948800000 1609941600000 "[]" None
      "\<lparr>startDate = 1609718400000, values' = [True, True, True, True, True, False, False]\<rparr>"]
  by (simp add: moment_defs)

text \<open>
  C5: the result has at most 14 entries, and every returned date lies in the half-open
  interval from the start date of the scan to 14 days after it.
\<close>

theorem getDateOptions_window:
  "length (getDateOptions orders focusedOrder cutoffTime now sched) \<le> 14
   \<and> (\<forall>r \<in> set (getDateOptions orders focusedOrder cutoffTime now sched).
        day_of (if isAfter now cutoffTime then add_days now 1 else now) \<le> readable_day r
        \<and> readable_day r < day_of (if isAfter now cutoffTime then add_days now 1 else now) + 14)"
proof
  have "length (filter P [0..<14::nat]) \<le> 14" for P
    using length_filter_le [of P "[0..<14]"] by (simp del: upt_Suc)
  then show "length (getDateOptions orders focusedOrder cutoffTime now sched) \<le> 14"
    unfolding getDateOptions_eq by (simp del: upt_Suc)
next
  show "\<forall>r \<in> set (getDateOptions orders focusedOrder cutoffTime now sched).
        day_of (if isAfter now cutoffTime then add_days now 1 else now) \<le> readable_day r
        \<and> readable_day r < day_of (if isAfter now cutoffTime then add_days now 1 else now) + 14"
    by (auto simp: mem_getDateOptions)
qed

theorem getDateOptions_window_witness:
  "Readable 18646 \<in> set (getDateOptions
       [(''2021-01-08'', \<lparr>key = ''2021-01-08'', title = ''BLT'', date = 1610064000000\<rparr>)]
       None 1609941600000 1609927200000
       \<lparr>startDate = 1609718400000, values' = [True, True, True, True, True, False, False]\<rparr>)
   \<and> day_of 1609927200000 \<le> readable_day (Readable 18646)
   \<and> readable_day (Readable 18646) < day_of 1609927200000 + 14
   \<and> length (getDateOptions
       [(''2021-01-08'', \<lparr>key = ''2021-01-08'', title = ''BLT'', date = 1610064000000\<rparr>)]
       None 1609941600000 1609927200000
       \<lparr>startDate = 1609718400000, values' = [True, True, True, True, True, False, False]\<rparr>) \<le> 14"
  using getDateOptions_window [of
      "[(''2021-01-08'', \<lparr>key = ''2021-01-08'', title = ''BLT'', date = 1610064000000\<rparr>)]"
      None 1609941600000 1609927200000
      "\<lparr>startDate = 1609718400000, values' = [True, True, True, True, True, False, False]\<rparr>"]
  unfolding getDateOptions_example
  by (simp add: isAfter_def)

text \<open>
  C6: the returned dates are strictly ascending in calendar order, and no date is
  returned twice.
\<close>

theorem getDateOptions_ascending:
  "sorted_wrt (<) (map readable_day (getDateOptions orders focusedOrder cutoffTime now sched))
   \<and> distinct (getDateOptions orders focusedOrder cutoffTime now sched)"
proof -
  let ?R = "getDateOptions orders focusedOrder cutoffTime now sched"
  have "sorted_wrt (<) (filter P [0..<14::nat])" for P
    by (rule sorted_wrt_filter) (simp del: upt_Suc)
  then have S: "sorted_wrt (<) (map readable_day ?R)"
    unfolding getDateOptions_eq
    by (simp add: sorted_wrt_map o_def del: upt_Suc)
  then have "distinct (map readable_day ?R)"
    using strict_sorted_iff by blast
  then show ?thesis using S by (simp add: distinct_map)
qed

section \<open>Properties of the home screen's orders\<close>

lemma insert_by_date: "insert_by (\<lambda>a b. diff_ms (date a) (date b)) x ys = insort_key date x ys"
  by (induction ys) (simp_all add: diff_ms_def)

lemma js_sort_by_date: "js_sort (\<lambda>a b. diff_ms (date a) (date b)) xs = sort_key date xs"
  by (induction xs) (simp_all add: js_sort_def insert_by_date sort_key_def)

lemma startOf_day_le: "startOf_day m \<le> m"
  using msPerDay_pos by (simp add: startOf_day_def)

lemma day_of_mono: "a \<le> b \<Longrightarrow> day_of a \<le> day_of b"
  using msPerDay_pos by (simp add: day_of_def zdiv_mono1)

lemma sorted_map_day_of: "sorted (map f xs) \<Longrightarrow> sorted (map (\<lambda>x. day_of (f x)) xs)"
  by (induction xs) (auto simp: day_of_mono)

lemma sortedFutureOrders_eq:
  "sortedFutureOrders orders cutoffTime now =
     sort_key date
       (filter (\<lambda>ord. (if now < cutoffTime then startOf_day now else now) \<le> date ord)
          (Object_values orders))"
  by (simp add: sortedFutureOrders_def js_sort_by_date Let_def isBefore_def isSameOrAfter_def)

text \<open>
  C10, as the code has it: \<^verbatim>\<open>getOrdersArr\<close> returns, in readable form, exactly the orders
  whose date is at or after the reference moment (today's midnight when the current
  moment is before the cutoff, the current moment itself otherwise), in ascending order
  of date, strictly ascending when no two of them share a date; an order dated today's
  midnight is kept if and only if the current moment is before the cutoff or is itself
  today's midnight.
\<close>

theorem getOrdersArr_future_sorted:
  "getOrdersArr orders cutoffTime now = map readableOrder (sortedFutureOrders orders cutoffTime now)
   \<and> mset (sortedFutureOrders orders cutoffTime now)
       = filter_mset (\<lambda>ord. (if now < cutoffTime then startOf_day now else now) \<le> date ord)
           (mset (Object_values orders))
   \<and> sorted (map date (sortedFutureOrders orders cutoffTime now))
   \<and> (distinct (map date (sortedFutureOrders orders cutoffTime now)) \<longrightarrow>
        sorted_wrt (<) (map date (sortedFutureOrders orders cutoffTime now)))
   \<and> (\<forall>ord \<in> set (Object_values orders). date ord = startOf_day now \<longrightarrow>
        (ord \<in> set (sortedFutureOrders orders cutoffTime now)
           \<longleftrightarrow> now < cutoffTime \<or> now = startOf_day now))
   \<and> sorted (map (\<lambda>shown. readable_day (date shown)) (getOrdersArr orders cutoffTime now))"
proof -
  let ?ref = "if now < cutoffTime then startOf_day now else now"
  let ?kept = "sortedFutureOrders orders cutoffTime now"
  have eq: "getOrdersArr orders cutoffTime now = map readableOrder ?kept"
    by (simp add: getOrdersArr_def)
  have m: "mset ?kept = filter_mset (\<lambda>ord. ?ref \<le> date ord) (mset (Object_values orders))"
    unfolding sortedFutureOrders_eq by simp
  have s: "sorted (map date ?kept)"
    unfolding sortedFutureOrders_eq by simp
  have st: "distinct (map date ?kept) \<longrightarrow> sorted_wrt (<) (map date ?kept)"
    using s by (simp add: strict_sorted_iff)
  have today: "\<forall>ord \<in> set (Object_values orders). date ord = startOf_day now \<longrightarrow>
            (ord \<in> set ?kept \<longleftrightarrow> now < cutoffTime \<or> now = startOf_day now)"
    unfolding sortedFutureOrders_eq using startOf_day_le [of now] by auto
  have shown: "(\<lambda>shown. readable_day (date shown)) \<circ> readableOrder = (\<lambda>ord. day_of (date ord))"
    by (rule ext) (simp add: readableOrder_def format_READABLE_def)
  have days: "sorted (map (\<lambda>shown. readable_day (date shown)) (getOrdersArr orders cutoffTime now))"
    unfolding eq map_map shown by (rule sorted_map_day_of [OF s])
  show ?thesis
    using eq m s st today days by blast
qed

lemmas orders_defs = getOrdersArr_def sortedFutureOrders_def js_sort_def Object_values_def
  isBefore_def isSameOrAfter_def startOf_day_def msPerDay_def diff_ms_def readableOrder_def
  format_READABLE_def day_of_def

lemma sortedFutureOrders_example:
  "sortedFutureOrders
     [(''2021-01-08'', \<lparr>key = ''2021-01-08'', title = ''BLT'', date = 1610064000000\<rparr>),
      (''2021-01-05'', \<lparr>key = ''2021-01-05'', title = ''Club'', date = 1609804800000\<rparr>),
      (''2021-01-06'', \<lparr>key = ''2021-01-06'', title = ''Veggie'', date = 1609891200000\<rparr>)]
     1609941600000 1609927200000
   = [\<lparr>key = ''2021-01-06'', title = ''Veggie'', date = 1609891200000\<rparr>,
      \<lparr>key = ''2021-01-08'', title = ''BLT'', date = 1610064000000\<rparr>]"
  by (simp add: orders_defs)

theorem getOrdersArr_future_sorted_witness:
  "distinct (map date (sortedFutureOrders
     [(''2021-01-08'', \<lparr>key = ''2021-01-08'', title = ''BLT'', date = 1610064000000\<rparr>),
      (''2021-01-05'', \<lparr>key = ''2021-01-05'', title = ''Club'', date = 1609804800000\<rparr>),
      (''2021-01-06'', \<lparr>key = ''2021-01-06'', title = ''Veggie'', date = 1609891200000\<rparr>)]
     1609941600000 1609927200000))
   \<and> sorted_wrt (<) (map date (sortedFutureOrders
     [(''2021-01-08'', \<lparr>key = ''2021-01-08'', title = ''BLT'', date = 1610064000000\<rparr>),
      (''2021-01-05'', \<lparr>key = ''2021-01-05'', title = ''Club'', date = 1609804800000\<rparr>),
      (''2021-01-06'', \<lparr>key = ''2021-01-06'', title = ''Veggie'', date = 1609891200000\<rparr>)]
     1609941600000 1609927200000))
   \<and> date \<lparr>key = ''2021-01-06'', title = ''Veggie'', date = 1609891200000\<rparr>
       = startOf_day 1609927200000
   \<and> (1609927200000::int) < 1609941600000
   \<and> \<lparr>key = ''2021-01-06'', title = ''Veggie'', date = 1609891200000\<rparr>
       \<in> set (sortedFutureOrders
     [(''2021-01-08'', \<lparr>key = ''2021-01-08'', title = ''BLT'', date = 1610064000000\<rparr>),
      (''2021-01-05'', \<lparr>key = ''2021-01-05'', title = ''Club'', date = 1609804800000\<rparr>),
      (''2021-01-06'', \<lparr>key = ''2021-01-06'', title = ''Veggie'', date = 1609891200000\<rparr>)]
     1609941600000 1609927200000)"
  using getOrdersArr_future_sorted [of
     "[(''2021-01-08'', \<lparr>key = ''2021-01-08'', title = ''BLT'', date = 1610064000000\<rparr>),
      (''2021-01-05'', \<lparr>key = ''2021-01-05'', title = ''Club'', date = 1609804800000\<rparr>),
      (''2021-01-06'', \<lparr>key = ''2021-01-06'', title = ''Veggie'', date = 1609891200000\<rparr>)]"
     1609941600000 1609927200000]
  unfolding sortedFutureOrders_example
  by (simp add: startOf_day_def msPerDay_def)

text \<open>
  The claim C10 as written fails at midnight with two orders on one date: the current
  moment is not before the cutoff, yet the orders dated today are kept, and the two
  returned orders have the same date, so the order of the result is not strict.
\<close>

theorem getOrdersArr_counterexample:
  "getOrdersArr
     [(''order1'', \<lparr>key = ''order1'', title = ''BLT'', date = 1609891200000\<rparr>),
      (''order2'', \<lparr>key = ''order2'', title = ''Club'', date = 1609891200000\<rparr>)]
     1609855200000 1609891200000
   = [\<lparr>key = ''order1'', title = ''BLT'', date = Readable 18633\<rparr>,
      \<lparr>key = ''order2'', title = ''Club'', date = Readable 18633\<rparr>]
   \<and> \<not> isBefore 1609891200000 1609855200000
   \<and> date \<lparr>key = ''order1'', title = ''BLT'', date = 1609891200000\<rparr> = startOf_day 1609891200000
   \<and> \<not> sorted_wrt (<) (map date (sortedFutureOrders
     [(''order1'', \<lparr>key = ''order1'', title = ''BLT'', date = 1609891200000\<rparr>),
      (''order2'', \<lparr>key = ''order2'', title = ''Club'', date = 1609891200000\<rparr>)]
     1609855200000 1609891200000))"
  by (simp add: orders_defs)

end
